theory Spec2Isabelle
  imports Complex_Main
begin

text \<open>
  A model of the stack navigator of the navigation library: the declarations of
  \<open>packages/stack/src/types.tsx\<close> as types, the component \<open>StackNavigator\<close> (its
  \<open>tabPress\<close> effect and the element it renders) as functions on an explicit world,
  and the properties of both.
\<close>

section \<open>JavaScript values\<close>

text \<open>
  A JavaScript \<open>number\<close> is modelled as a real (no NaN, no infinities: the numbers the
  navigator compares are route indices). Primitive values are a datatype, so that the
  strict comparison \<open>!==\<close> of the source is inequality of values of this type.
\<close>

type_synonym number = real

datatype jsval = Undefined | Null | Bool bool | Num number | Str string

text \<open>An action object: its properties by name.\<close>

type_synonym action = "string \<rightharpoonup> jsval"

section \<open>Types of the stack (types.tsx)\<close>

text \<open>
  Object types are records, unions of tagged objects are datatypes, an optional member
  (\<open>m?: T\<close>) has an option type. Members whose names are keywords here carry a prime
  (\<open>next'\<close>, \<open>open'\<close>). Types of other packages the declarations only mention
  (React nodes, style objects, easing functions, descriptors) are type parameters.
\<close>

subsection \<open>Events\<close>

text \<open>
  \<open>StackNavigationEventMap\<close> lists the events by name, each with the type of its data;
  both have the data \<open>{ closing: boolean }\<close>. An event of the map is its name with data
  of that type.
\<close>

record transition_data =
  closing :: bool

datatype StackNavigationEventMap =
    transitionStart transition_data
  | transitionEnd transition_data

fun eventName :: "StackNavigationEventMap \<Rightarrow> string" where
  "eventName (transitionStart d) = ''transitionStart''"
| "eventName (transitionEnd d) = ''transitionEnd''"

fun eventData :: "StackNavigationEventMap \<Rightarrow> transition_data" where
  "eventData (transitionStart d) = d"
| "eventData (transitionEnd d) = d"

subsection \<open>The navigation prop\<close>

text \<open>
  The argument tuple of \<open>push\<close> is
  \<open>ParamList[RouteName] extends undefined | any ? [RouteName] | [RouteName, ParamList[RouteName]]
    : [RouteName, ParamList[RouteName]]\<close>.
  The union \<open>undefined | any\<close> is \<open>any\<close>, which every type extends, so the tuple is
  \<open>[RouteName] | [RouteName, ParamList[RouteName]]\<close>.
\<close>

datatype ('name, 'params) push_args =
    RouteName 'name
  | RouteNameParams 'name 'params

text \<open>
  A method returning \<open>void\<close> acts on the world \<open>'w\<close> and returns the unit value.
\<close>

type_synonym 'w void_method = "'w \<Rightarrow> unit \<times> 'w"

text \<open>
  \<open>StackNavigationProp\<close> is the intersection of \<open>NavigationProp<...>\<close> of the core
  package, whose members \<open>'np\<close> stands for, and the object type of the three methods.
\<close>

record 'np NavigationProp =
  navigationProp :: 'np

record ('np, 'name, 'params, 'w) StackNavigationProp = "'np NavigationProp" +
  push :: "('name, 'params) push_args \<Rightarrow> 'w void_method"
  pop :: "number option \<Rightarrow> 'w void_method"
  popToTop :: "'w void_method"

subsection \<open>Layout, animated nodes, scenes\<close>

record Layout =
  width :: number
  height :: number

datatype GestureDirection = Horizontal | Vertical

text \<open>
  \<open>Animated.Node<T>\<close>: a node of the animation library; in a frame it evaluates to a
  value of type \<open>T\<close>.
\<close>

datatype 'a Animated_Node = Animated_Node 'a

fun evaluate :: "'a Animated_Node \<Rightarrow> 'a" where
  "evaluate (Animated_Node v) = v"

text \<open>The literal type \<open>0 | 1\<close>.\<close>

typedef zero_or_one = "{0 :: number, 1}"
  by auto

record scene_progress =
  current :: "number Animated_Node"
  next' :: "number Animated_Node option"
  previous :: "number Animated_Node option"

record ('route, 'descriptor) Scene =
  route :: 'route
  descriptor :: 'descriptor
  progress :: scene_progress

subsection \<open>Transition specs\<close>

record SpringConfig =
  damping :: number
  mass :: number
  stiffness :: number
  restSpeedThreshold :: number
  restDisplacementThreshold :: number
  overshootClamping :: bool

record 'easing TimingConfig =
  duration :: number
  easing :: 'easing

text \<open>
  \<open>{ animation: 'spring'; config: SpringConfig } | { animation: 'timing'; config: TimingConfig }\<close>:
  the member \<open>animation\<close> is the tag.
\<close>

datatype 'easing TransitionSpec =
    spring SpringConfig
  | timing "'easing TimingConfig"

fun animation :: "'easing TransitionSpec \<Rightarrow> string" where
  "animation (spring c) = ''spring''"
| "animation (timing c) = ''timing''"

subsection \<open>Card interpolation\<close>

record screen_progress =
  progress :: "number Animated_Node"

record card_layouts =
  screen :: Layout

record card_insets =
  top :: number
  right :: number
  bottom :: number
  left :: number

record StackCardInterpolationProps =
  current :: screen_progress
  next' :: "screen_progress option"
  index :: number
  closing :: "zero_or_one Animated_Node"
  layouts :: card_layouts
  insets :: card_insets

record 'style StackCardInterpolatedStyle =
  containerStyle :: "'style option"
  cardStyle :: "'style option"
  overlayStyle :: "'style option"
  shadowStyle :: "'style option"

type_synonym 'style StackCardStyleInterpolator =
  "StackCardInterpolationProps \<Rightarrow> 'style StackCardInterpolatedStyle"

subsection \<open>Presets and options\<close>

record 'easing transitionSpec_pair =
  open' :: "'easing TransitionSpec"
  close :: "'easing TransitionSpec"

record ('easing, 'style, 'header) TransitionPreset =
  gestureDirection :: GestureDirection
  transitionSpec :: "'easing transitionSpec_pair"
  cardStyleInterpolator :: "'style StackCardStyleInterpolator"
  headerStyleInterpolator :: 'header

text \<open>
  The member \<open>gestureResponseDistance\<close> of \<open>StackNavigationOptions\<close>, with its two
  members in the order of the declaration.
\<close>

record gestureResponseDistance =
  vertical :: "number option"
  horizontal :: "number option"

section \<open>Parts of the stack view modelled from the specification\<close>

text \<open>
  Modelled from the spec: the stack view's computation of the scenes of a render pass
  (views/Stack/StackView is not among the sources). The spec: a scene "bundles the
  screen descriptor with three progress references: current (this screen's own
  progress), next (the screen stacked above it, if any), previous (the screen below it,
  if any). Scenes are recomputed each render pass from the current screen list". The
  list is ordered bottom to top.
\<close>

definition scenes ::
    "'route list \<Rightarrow> ('route \<Rightarrow> 'descriptor) \<Rightarrow> ('route \<Rightarrow> number Animated_Node)
       \<Rightarrow> ('route, 'descriptor) Scene list" where
  "scenes routes descriptorOf progressOf =
     map (\<lambda>i.
        \<lparr>route = routes ! i,
         descriptor = descriptorOf (routes ! i),
         progress =
           \<lparr>scene_progress.current = progressOf (routes ! i),
            scene_progress.next' =
              (if Suc i < length routes then Some (progressOf (routes ! Suc i)) else None),
            previous = (if 0 < i then Some (progressOf (routes ! (i - 1))) else None)\<rparr>\<rparr>)
       [0..<length routes]"

text \<open>
  Modelled from the spec: the edge-response distance of the gesture bridge (the card's
  gesture handler is not among the sources). The spec: a pan starts "within the
  configured edge-response distance (direction-dependent: horizontal threshold vs
  vertical threshold)", with "the source's edge-distance gating values (25/135)" as
  "configurable defaults"; the comments of \<open>gestureResponseDistance\<close> in types.tsx give
  25 for the horizontal direction and 135 for the vertical direction.
\<close>

definition GESTURE_RESPONSE_DISTANCE_HORIZONTAL :: number where
  "GESTURE_RESPONSE_DISTANCE_HORIZONTAL = 25"

definition GESTURE_RESPONSE_DISTANCE_VERTICAL :: number where
  "GESTURE_RESPONSE_DISTANCE_VERTICAL = 135"

definition edgeResponseDistance ::
    "GestureDirection \<Rightarrow> gestureResponseDistance option \<Rightarrow> number" where
  "edgeResponseDistance direction override =
     (case direction of
        Vertical \<Rightarrow>
          (case Option.bind override vertical of
             Some d \<Rightarrow> d
           | None \<Rightarrow> GESTURE_RESPONSE_DISTANCE_VERTICAL)
      | Horizontal \<Rightarrow>
          (case Option.bind override horizontal of
             Some d \<Rightarrow> d
           | None \<Rightarrow> GESTURE_RESPONSE_DISTANCE_HORIZONTAL))"

section \<open>The stack navigator (navigators/createStackNavigator)\<close>

subsection \<open>Rendering\<close>

text \<open>
  The element tree \<open>StackNavigator\<close> returns:
  \<^verbatim>\<open><KeyboardManager enabled={keyboardHandlingEnabled !== false}>
    {props => <StackView state descriptors navigation {...rest} {...props} />}
  </KeyboardManager>\<close>
  \<open>KeyboardManager\<close> takes its \<open>enabled\<close> prop and a render function from the props
  it supplies to the child; \<open>StackView\<close> is the view with the props it is given. The
  state, descriptors and navigation object come from \<open>useNavigationBuilder\<close>.
\<close>

datatype ('s, 'd, 'n, 'r, 'k) element =
    KeyboardManager bool "'k \<Rightarrow> ('s, 'd, 'n, 'r, 'k) element"
  | StackView 's 'd 'n 'r 'k

definition StackNavigator ::
    "jsval \<Rightarrow> 's \<Rightarrow> 'd \<Rightarrow> 'n \<Rightarrow> 'r \<Rightarrow> ('s, 'd, 'n, 'r, 'k) element" where
  "StackNavigator keyboardHandlingEnabled state descriptors navigation rest =
     KeyboardManager (keyboardHandlingEnabled \<noteq> Bool False)
       (\<lambda>props. StackView state descriptors navigation rest props)"

subsection \<open>The tabPress effect\<close>

text \<open>
  The part of the navigation state the effect reads: \<open>state.index\<close> and \<open>state.key\<close>.
\<close>

record StackNavigationState =
  index :: number
  key :: string

text \<open>
  An event object is shared by every listener it is delivered to and is mutated by
  \<open>preventDefault\<close>: events are identified by a number and the flag
  \<open>e.defaultPrevented\<close> lives in the world.
\<close>

type_synonym event = nat

text \<open>
  The closure handed to \<open>requestAnimationFrame\<close>: it holds the \<open>state\<close> of the render
  that registered the listener, the value \<open>isFocused\<close> read when the event arrived, and
  the event \<open>e\<close>.
\<close>

datatype frame_callback = ResetStack StackNavigationState bool event

text \<open>
  The listeners of \<open>tabPress\<close>: the one this navigator registers (a closure over
  \<open>state\<close>), and listeners of other components, which either call
  \<open>e.preventDefault()\<close> or do not.
\<close>

datatype listener = StackNavigatorTabPress StackNavigationState | OtherListener bool

record world =
  focused :: bool
  listeners :: "listener list"
  defaultPrevented :: "event \<Rightarrow> bool"
  frames :: "frame_callback list"
  dispatched :: "action list"

definition isFocused :: "world \<Rightarrow> bool" where
  "isFocused w = focused w"

definition preventDefault :: "event \<Rightarrow> world \<Rightarrow> world" where
  "preventDefault e w = w\<lparr>defaultPrevented := (defaultPrevented w)(e := True)\<rparr>"

definition requestAnimationFrame :: "frame_callback \<Rightarrow> world \<Rightarrow> world" where
  "requestAnimationFrame cb w = w\<lparr>frames := frames w @ [cb]\<rparr>"

definition dispatch :: "action \<Rightarrow> world \<Rightarrow> world" where
  "dispatch a w = w\<lparr>dispatched := dispatched w @ [a]\<rparr>"

text \<open>
  The listener of lines 47-62: read \<open>navigation.isFocused()\<close> now, decide in the next
  frame.
\<close>

definition tabPressListener :: "StackNavigationState \<Rightarrow> event \<Rightarrow> world \<Rightarrow> world" where
  "tabPressListener state e w =
     (let isFoc = isFocused w in requestAnimationFrame (ResetStack state isFoc e) w)"

text \<open>
  The effect registers the listener only when the navigation object has
  \<open>addListener\<close> (\<open>navigation.addListener && navigation.addListener('tabPress', ...)\<close>).
\<close>

definition tabPressEffect :: "bool \<Rightarrow> StackNavigationState \<Rightarrow> listener list" where
  "tabPressEffect hasAddListener state =
     (if hasAddListener then [StackNavigatorTabPress state] else [])"

text \<open>
  The body of the frame callback. \<open>popToTopAction\<close> is the action object
  \<open>StackActions.popToTop()\<close> of the routers package; the dispatched object is
  \<open>{...StackActions.popToTop(), target: state.key}\<close>.
\<close>

fun runCallback :: "action \<Rightarrow> frame_callback \<Rightarrow> world \<Rightarrow> world" where
  "runCallback popToTopAction (ResetStack state isFoc e) w =
     (if StackNavigationState.index state > 0 \<and> isFoc \<and> \<not> defaultPrevented w e
      then dispatch (popToTopAction(''target'' \<mapsto> Str (key state))) w
      else w)"

subsection \<open>The environment: event delivery and animation frames\<close>

text \<open>
  Modelled from the spec: the delivery of an event to its listeners (the event emitter of
  the core package is not among the sources). The spec: "emit(eventKind, payload)
  notifies all current subscribers synchronously in registration order". Every listener
  gets the same event object.
\<close>

fun invoke :: "event \<Rightarrow> listener \<Rightarrow> world \<Rightarrow> world" where
  "invoke e (StackNavigatorTabPress state) w = tabPressListener state e w"
| "invoke e (OtherListener prevents) w = (if prevents then preventDefault e w else w)"

definition emit :: "event \<Rightarrow> world \<Rightarrow> world" where
  "emit e w = fold (invoke e) (listeners w) w"

text \<open>
  What can happen between the delivery and the next frame: the navigator gains or loses
  focus, or somebody still calls \<open>preventDefault\<close> on an event.
\<close>

datatype env_step = FocusChanged bool | PreventDefaultCalled event

fun env :: "env_step \<Rightarrow> world \<Rightarrow> world" where
  "env (FocusChanged b) w = w\<lparr>focused := b\<rparr>"
| "env (PreventDefaultCalled e) w = preventDefault e w"

text \<open>
  An animation frame of the platform runs the callbacks requested before it, in the
  order of the requests.
\<close>

definition runFrame :: "action \<Rightarrow> world \<Rightarrow> world" where
  "runFrame popToTopAction w = fold (runCallback popToTopAction) (frames w) (w\<lparr>frames := []\<rparr>)"

subsection \<open>Notions used to state the properties\<close>

text \<open>The states of this navigator's listeners among the registered listeners.\<close>

fun stackStates :: "listener list \<Rightarrow> StackNavigationState list" where
  "stackStates [] = []"
| "stackStates (StackNavigatorTabPress s # ls) = s # stackStates ls"
| "stackStates (OtherListener p # ls) = stackStates ls"

text \<open>
  Whether a frame callback dispatches, given the flags \<open>defaultPrevented\<close> of the frame
  it runs in, and the action it dispatches then.
\<close>

fun fires :: "(event \<Rightarrow> bool) \<Rightarrow> frame_callback \<Rightarrow> bool" where
  "fires prevented (ResetStack s f e) = (StackNavigationState.index s > 0 \<and> f \<and> \<not> prevented e)"

fun resetAction :: "action \<Rightarrow> frame_callback \<Rightarrow> action" where
  "resetAction popToTopAction (ResetStack s f e) = popToTopAction(''target'' \<mapsto> Str (key s))"

subsection \<open>An example\<close>

text \<open>
  A focused navigator whose stack has three routes (index 2), with nothing pending and no
  event prevented, and the action object \<open>{ type: 'POP_TO_TOP' }\<close>.
\<close>

definition exampleState :: StackNavigationState where
  "exampleState = \<lparr>index = 2, key = ''stack-1''\<rparr>"

definition exampleWorld :: "listener list \<Rightarrow> world" where
  "exampleWorld ls =
     \<lparr>focused = True, listeners = ls, defaultPrevented = (\<lambda>e. False),
      frames = [], dispatched = []\<rparr>"

definition examplePopToTop :: action where
  "examplePopToTop = [''type'' \<mapsto> Str ''POP_TO_TOP'']"

section \<open>Properties of the stack navigator\<close>

subsection \<open>Event delivery and frames\<close>

text \<open>
  Delivering an event changes neither the focus, the dispatched actions nor the
  registered listeners; it queues one frame callback per listener of this navigator and
  sets the event's flag when some listener prevents the default.
\<close>

lemma invoke_keeps:
  "focused (invoke e l w) = focused w"
  "dispatched (invoke e l w) = dispatched w"
  "listeners (invoke e l w) = listeners w"
  by (cases l; simp add: tabPressListener_def requestAnimationFrame_def preventDefault_def Let_def)+

lemma fold_invoke_keeps:
  "focused (fold (invoke e) ls w) = focused w \<and>
   dispatched (fold (invoke e) ls w) = dispatched w \<and>
   listeners (fold (invoke e) ls w) = listeners w"
  by (induction ls arbitrary: w) (simp_all add: invoke_keeps)

lemma fold_invoke_frames:
  "frames (fold (invoke e) ls w) =
     frames w @ map (\<lambda>s. ResetStack s (focused w) e) (stackStates ls)"
proof (induction ls arbitrary: w)
  case Nil
  then show ?case by simp
next
  case (Cons l ls)
  show ?case
    by (cases l)
       (simp_all add: Cons.IH tabPressListener_def requestAnimationFrame_def
          preventDefault_def isFocused_def Let_def)
qed

lemma fold_invoke_prevented:
  "defaultPrevented (fold (invoke e) ls w) e' =
     (defaultPrevented w e' \<or> (e' = e \<and> OtherListener True \<in> set ls))"
proof (induction ls arbitrary: w)
  case Nil
  then show ?case by simp
next
  case (Cons l ls)
  show ?case
    by (cases l)
       (auto simp add: Cons.IH tabPressListener_def requestAnimationFrame_def
          preventDefault_def Let_def)
qed

lemma fold_env_keeps:
  "frames (fold env mid w) = frames w \<and> dispatched (fold env mid w) = dispatched w
   \<and> listeners (fold env mid w) = listeners w"
proof (induction mid arbitrary: w)
  case Nil
  then show ?case by simp
next
  case (Cons s mid)
  show ?case by (cases s) (simp_all add: Cons.IH preventDefault_def)
qed

lemma fold_env_prevented:
  "defaultPrevented (fold env mid w) e =
     (defaultPrevented w e \<or> PreventDefaultCalled e \<in> set mid)"
proof (induction mid arbitrary: w)
  case Nil
  then show ?case by simp
next
  case (Cons s mid)
  show ?case by (cases s) (auto simp add: Cons.IH preventDefault_def)
qed

lemma runCallback_prevented:
  "defaultPrevented (runCallback p cb w) = defaultPrevented w"
  by (cases cb) (simp add: dispatch_def)

lemma runCallback_dispatched:
  "dispatched (runCallback p cb w) =
     dispatched w @ (if fires (defaultPrevented w) cb then [resetAction p cb] else [])"
  by (cases cb) (simp add: dispatch_def)

lemma fold_runCallback_dispatched:
  "dispatched (fold (runCallback p) cbs w) =
     dispatched w @ map (resetAction p) (filter (fires (defaultPrevented w)) cbs)"
proof (induction cbs arbitrary: w)
  case Nil
  then show ?case by simp
next
  case (Cons cb cbs)
  have "dispatched (fold (runCallback p) cbs (runCallback p cb w)) =
      dispatched (runCallback p cb w) @
        map (resetAction p) (filter (fires (defaultPrevented w)) cbs)"
    by (simp add: Cons.IH runCallback_prevented)
  then show ?case
    by (simp add: runCallback_dispatched)
qed

lemma runFrame_dispatched:
  "dispatched (runFrame p w) =
     dispatched w @ map (resetAction p) (filter (fires (defaultPrevented w)) (frames w))"
  by (simp add: runFrame_def fold_runCallback_dispatched)

lemma stackStates_append:
  "stackStates (xs @ ys) = stackStates xs @ stackStates ys"
  by (induction xs rule: stackStates.induct) simp_all

lemma delivery_then_frame:
  assumes "frames w = []"
      and "listeners w = before @ StackNavigatorTabPress st # after"
      and "stackStates (before @ after) = []"
  shows "dispatched (runFrame p (fold env mid (emit e w))) =
           dispatched w @
           (if focused w \<and> 0 < StackNavigationState.index st \<and> \<not> defaultPrevented w e
               \<and> OtherListener True \<notin> set (before @ after)
               \<and> PreventDefaultCalled e \<notin> set mid
            then [p(''target'' \<mapsto> Str (key st))] else [])"
proof -
  let ?w1 = "emit e w"
  let ?w2 = "fold env mid ?w1"
  have states: "stackStates (listeners w) = [st]"
    using assms(2,3) by (simp add: stackStates_append)
  have fr: "frames ?w2 = [ResetStack st (focused w) e]"
    by (simp add: fold_env_keeps emit_def fold_invoke_frames assms(1) states)
  have di: "dispatched ?w2 = dispatched w"
    by (simp add: fold_env_keeps emit_def fold_invoke_keeps)
  have "defaultPrevented ?w2 e =
      (defaultPrevented w e \<or> OtherListener True \<in> set (listeners w)
        \<or> PreventDefaultCalled e \<in> set mid)"
    by (auto simp add: fold_env_prevented emit_def fold_invoke_prevented)
  moreover have "(OtherListener True \<in> set (listeners w)) =
      (OtherListener True \<in> set (before @ after))"
    by (simp add: assms(2))
  ultimately have pr: "defaultPrevented ?w2 e =
      (defaultPrevented w e \<or> OtherListener True \<in> set (before @ after)
        \<or> PreventDefaultCalled e \<in> set mid)"
    by simp
  show ?thesis
    by (simp add: runFrame_dispatched fr di pr)
qed

lemma emit_dispatched: "dispatched (emit e w) = dispatched w"
  by (simp add: emit_def fold_invoke_keeps)

lemma focus_change_irrelevant:
  "dispatched (runFrame p (fold env (mid1 @ FocusChanged b # mid2) w)) =
   dispatched (runFrame p (fold env (mid1 @ mid2) w))"
proof -
  have "defaultPrevented (fold env (mid1 @ FocusChanged b # mid2) w) =
        defaultPrevented (fold env (mid1 @ mid2) w)"
  proof
    fix e'
    show "defaultPrevented (fold env (mid1 @ FocusChanged b # mid2) w) e' =
          defaultPrevented (fold env (mid1 @ mid2) w) e'"
      unfolding fold_env_prevented by simp
  qed
  then show ?thesis
    by (simp only: runFrame_dispatched fold_env_keeps)
qed

subsection \<open>The tab press\<close>

text \<open>
  C1. A world with no pending frame callback, in which this navigator's listener (for
  the state \<open>st\<close>) is registered among listeners of other components, receives the
  \<open>tabPress\<close> event \<open>e\<close>; then the focus may change and \<open>preventDefault\<close> may
  still be called (\<open>mid\<close>); then the next animation frame runs. Exactly when the
  navigator was focused as the event arrived, \<open>st.index > 0\<close>, and nobody prevented
  the default of \<open>e\<close> (not before, not a listener of the delivery, not afterwards),
  one action is dispatched: the \<open>popToTop\<close> action with its \<open>target\<close> set to
  \<open>st.key\<close>. In every other case nothing is dispatched.
\<close>

theorem tabPress_dispatches_popToTop:
  assumes "frames w = []"
      and "listeners w = before @ tabPressEffect True st @ after"
      and "stackStates (before @ after) = []"
  shows "dispatched (runFrame popToTopAction (fold env mid (emit e w))) =
           dispatched w @
           (if focused w \<and> 0 < StackNavigationState.index st \<and> \<not> defaultPrevented w e
               \<and> OtherListener True \<notin> set (before @ after)
               \<and> PreventDefaultCalled e \<notin> set mid
            then [popToTopAction(''target'' \<mapsto> Str (key st))] else [])"
proof -
  have "listeners w = before @ StackNavigatorTabPress st # after"
    using assms(2) by (simp add: tabPressEffect_def)
  with assms(1) show ?thesis
    using assms(3) by (rule delivery_then_frame)
qed

theorem tabPress_dispatches_popToTop_witness:
  "frames (exampleWorld ([OtherListener False] @ tabPressEffect True exampleState @ [])) = []
   \<and> stackStates ([OtherListener False] @ []) = []
   \<and> dispatched (runFrame examplePopToTop (fold env [FocusChanged False]
         (emit 0 (exampleWorld ([OtherListener False] @ tabPressEffect True exampleState @ [])))))
       = [examplePopToTop(''target'' \<mapsto> Str ''stack-1'')]
   \<and> dispatched (runFrame examplePopToTop (fold env []
         (emit 0 (exampleWorld ([] @ tabPressEffect True exampleState @ [OtherListener True])))))
       = []"
proof -
  let ?w = "exampleWorld ([OtherListener False] @ tabPressEffect True exampleState @ [])"
  let ?v = "exampleWorld ([] @ tabPressEffect True exampleState @ [OtherListener True])"
  have fw: "frames ?w = []" and fv: "frames ?v = []"
    by (simp_all add: exampleWorld_def)
  have lw: "listeners ?w = [OtherListener False] @ tabPressEffect True exampleState @ []"
    and lv: "listeners ?v = [] @ tabPressEffect True exampleState @ [OtherListener True]"
    by (simp_all add: exampleWorld_def)
  have sw: "stackStates ([OtherListener False] @ []) = []"
    and sv: "stackStates ([] @ [OtherListener True]) = []"
    by simp_all
  have "dispatched (runFrame examplePopToTop (fold env [FocusChanged False] (emit 0 ?w)))
      = [examplePopToTop(''target'' \<mapsto> Str ''stack-1'')]"
    using tabPress_dispatches_popToTop [OF fw lw sw, of examplePopToTop "[FocusChanged False]" 0]
    by (simp add: exampleWorld_def exampleState_def)
  moreover have "dispatched (runFrame examplePopToTop (fold env [] (emit 0 ?v))) = []"
    using tabPress_dispatches_popToTop [OF fv lv sv, of examplePopToTop "[]" 0]
    by (simp add: exampleWorld_def)
  ultimately show ?thesis
    using fw sw by simp
qed

text \<open>
  C10. The reset is never dispatched while the event is delivered, and is decided in the
  frame after it. The listener itself dispatches nothing and only queues the frame
  callback, which holds the focus read as the event arrived; delivering the event to all
  listeners dispatches nothing. The queued callback, when it runs, dispatches the
  \<open>popToTop\<close> action targeted at \<open>st.key\<close> exactly when \<open>st.index > 0\<close>, the held
  focus is true, and the event's default is not prevented in the world the callback
  runs in. So for a world with nothing pending in which the navigator's listener is
  registered: the next frame dispatches that action exactly when the navigator was
  focused at the delivery, \<open>st.index > 0\<close> and nobody prevented the default of the
  event, be it a listener registered before or after this one or a call after the
  delivery; a listener registered after this navigator's that prevents the default makes
  the frame dispatch nothing; and a change of focus between the delivery and the frame
  does not change what the frame dispatches.
\<close>

theorem tabPress_reset_is_deferred:
  "dispatched (tabPressListener st e w) = dispatched w
   \<and> frames (tabPressListener st e w) = frames w @ [ResetStack st (isFocused w) e]
   \<and> dispatched (emit e w) = dispatched w
   \<and> dispatched (runCallback popToTopAction (ResetStack st foc e) w') =
       dispatched w' @
       (if 0 < StackNavigationState.index st \<and> foc \<and> \<not> defaultPrevented w' e
        then [popToTopAction(''target'' \<mapsto> Str (key st))] else [])
   \<and> (frames w = [] \<and> listeners w = before @ tabPressEffect True st @ after
        \<and> stackStates (before @ after) = []
      \<longrightarrow> frames (emit e w) = [ResetStack st (focused w) e]
          \<and> dispatched (runFrame popToTopAction (fold env mid (emit e w))) =
              dispatched w @
              (if focused w \<and> 0 < StackNavigationState.index st \<and> \<not> defaultPrevented w e
                  \<and> OtherListener True \<notin> set before \<and> OtherListener True \<notin> set after
                  \<and> PreventDefaultCalled e \<notin> set mid
               then [popToTopAction(''target'' \<mapsto> Str (key st))] else []))
   \<and> (frames w = [] \<and> listeners w = before @ tabPressEffect True st @ after
        \<and> stackStates (before @ after) = [] \<and> OtherListener True \<in> set after
      \<longrightarrow> dispatched (runFrame popToTopAction (fold env mid (emit e w))) = dispatched w)
   \<and> dispatched (runFrame popToTopAction (fold env (mid1 @ FocusChanged b # mid2) (emit e w)))
       = dispatched (runFrame popToTopAction (fold env (mid1 @ mid2) (emit e w)))"
proof -
  have a: "dispatched (tabPressListener st e w) = dispatched w"
    by (simp add: tabPressListener_def requestAnimationFrame_def Let_def)
  have b: "frames (tabPressListener st e w) = frames w @ [ResetStack st (isFocused w) e]"
    by (simp add: tabPressListener_def requestAnimationFrame_def Let_def)
  have r: "dispatched (runCallback popToTopAction (ResetStack st foc e) w') =
       dispatched w' @
       (if 0 < StackNavigationState.index st \<and> foc \<and> \<not> defaultPrevented w' e
        then [popToTopAction(''target'' \<mapsto> Str (key st))] else [])"
    by (simp add: dispatch_def)
  have q: "frames (emit e w) = [ResetStack st (focused w) e]
          \<and> dispatched (runFrame popToTopAction (fold env mid (emit e w))) =
              dispatched w @
              (if focused w \<and> 0 < StackNavigationState.index st \<and> \<not> defaultPrevented w e
                  \<and> OtherListener True \<notin> set before \<and> OtherListener True \<notin> set after
                  \<and> PreventDefaultCalled e \<notin> set mid
               then [popToTopAction(''target'' \<mapsto> Str (key st))] else [])"
    if "frames w = []" "listeners w = before @ tabPressEffect True st @ after"
       "stackStates (before @ after) = []"
  proof -
    have l: "listeners w = before @ StackNavigatorTabPress st # after"
      using that(2) by (simp add: tabPressEffect_def)
    have "stackStates (listeners w) = [st]"
      using l that(3) by (simp add: stackStates_append)
    then have "frames (emit e w) = [ResetStack st (focused w) e]"
      by (simp add: emit_def fold_invoke_frames that(1))
    moreover from delivery_then_frame [OF that(1) l that(3), of popToTopAction mid e]
    have "dispatched (runFrame popToTopAction (fold env mid (emit e w))) =
              dispatched w @
              (if focused w \<and> 0 < StackNavigationState.index st \<and> \<not> defaultPrevented w e
                  \<and> OtherListener True \<notin> set before \<and> OtherListener True \<notin> set after
                  \<and> PreventDefaultCalled e \<notin> set mid
               then [popToTopAction(''target'' \<mapsto> Str (key st))] else [])"
      by simp
    ultimately show ?thesis by (rule conjI)
  qed
  have q': "frames w = [] \<and> listeners w = before @ tabPressEffect True st @ after
        \<and> stackStates (before @ after) = []
      \<longrightarrow> frames (emit e w) = [ResetStack st (focused w) e]
          \<and> dispatched (runFrame popToTopAction (fold env mid (emit e w))) =
              dispatched w @
              (if focused w \<and> 0 < StackNavigationState.index st \<and> \<not> defaultPrevented w e
                  \<and> OtherListener True \<notin> set before \<and> OtherListener True \<notin> set after
                  \<and> PreventDefaultCalled e \<notin> set mid
               then [popToTopAction(''target'' \<mapsto> Str (key st))] else [])"
    using q by blast
  have c: "dispatched (runFrame popToTopAction (fold env mid (emit e w))) = dispatched w"
    if "frames w = []" "listeners w = before @ tabPressEffect True st @ after"
       "stackStates (before @ after) = []" "OtherListener True \<in> set after"
  proof -
    have "listeners w = before @ StackNavigatorTabPress st # after"
      using that(2) by (simp add: tabPressEffect_def)
    from delivery_then_frame [OF that(1) this that(3), of popToTopAction mid e] that(4)
    show ?thesis by simp
  qed
  have c': "frames w = [] \<and> listeners w = before @ tabPressEffect True st @ after
        \<and> stackStates (before @ after) = [] \<and> OtherListener True \<in> set after
      \<longrightarrow> dispatched (runFrame popToTopAction (fold env mid (emit e w))) = dispatched w"
    using c by blast
  note d = focus_change_irrelevant [of popToTopAction mid1 b mid2 "emit e w"]
  note e = emit_dispatched [of e w]
  from a b e r q' c' d show ?thesis
    by (intro conjI)
qed

theorem tabPress_reset_is_deferred_witness:
  "frames (exampleWorld ([] @ tabPressEffect True exampleState @ [OtherListener False])) = []
   \<and> stackStates ([] @ [OtherListener False]) = []
   \<and> dispatched (emit 0
         (exampleWorld ([] @ tabPressEffect True exampleState @ [OtherListener False]))) = []
   \<and> dispatched (runFrame examplePopToTop (fold env [FocusChanged False]
         (emit 0 (exampleWorld ([] @ tabPressEffect True exampleState @ [OtherListener False])))))
       = [examplePopToTop(''target'' \<mapsto> Str ''stack-1'')]
   \<and> frames (exampleWorld ([] @ tabPressEffect True exampleState @ [OtherListener True])) = []
   \<and> stackStates ([] @ [OtherListener True]) = []
   \<and> OtherListener True \<in> set [OtherListener True]
   \<and> dispatched (tabPressListener exampleState 0
         (exampleWorld ([] @ tabPressEffect True exampleState @ [OtherListener True]))) = []
   \<and> dispatched (runFrame examplePopToTop (fold env []
         (emit 0 (exampleWorld ([] @ tabPressEffect True exampleState @ [OtherListener True])))))
       = []"
proof -
  let ?u = "exampleWorld ([] @ tabPressEffect True exampleState @ [OtherListener False])"
  let ?v = "exampleWorld ([] @ tabPressEffect True exampleState @ [OtherListener True])"
  have fu: "frames ?u = []" and du: "dispatched ?u = []"
    and lu: "listeners ?u = [] @ tabPressEffect True exampleState @ [OtherListener False]"
    by (simp_all add: exampleWorld_def)
  have fv: "frames ?v = []" and dv: "dispatched ?v = []"
    and lv: "listeners ?v = [] @ tabPressEffect True exampleState @ [OtherListener True]"
    by (simp_all add: exampleWorld_def)
  have su: "stackStates ([] @ [OtherListener False]) = []"
    and sv: "stackStates ([] @ [OtherListener True]) = []"
    and mv: "OtherListener True \<in> set [OtherListener True]"
    by simp_all
  note tu = tabPress_reset_is_deferred
              [of exampleState 0 ?u examplePopToTop False ?u "[]" "[OtherListener False]"
                  "[FocusChanged False]"]
  note tv = tabPress_reset_is_deferred
              [of exampleState 0 ?v examplePopToTop False ?v "[]" "[OtherListener True]" "[]"]
  from tu have eu: "dispatched (emit 0 ?u) = []"
    using du by simp
  from tu fu lu su
  have "dispatched (runFrame examplePopToTop (fold env [FocusChanged False] (emit 0 ?u))) =
      dispatched ?u @
        (if focused ?u \<and> 0 < StackNavigationState.index exampleState
            \<and> \<not> defaultPrevented ?u 0
            \<and> OtherListener True \<notin> set [] \<and> OtherListener True \<notin> set [OtherListener False]
            \<and> PreventDefaultCalled 0 \<notin> set [FocusChanged False]
         then [examplePopToTop(''target'' \<mapsto> Str (key exampleState))] else [])"
    by blast
  then have ru: "dispatched (runFrame examplePopToTop
        (fold env [FocusChanged False] (emit 0 ?u)))
      = [examplePopToTop(''target'' \<mapsto> Str ''stack-1'')]"
    by (simp add: exampleWorld_def exampleState_def)
  from tv have lvd: "dispatched (tabPressListener exampleState 0 ?v) = []"
    using dv by simp
  from tv fv lv sv mv
  have "dispatched (runFrame examplePopToTop (fold env [] (emit 0 ?v))) = dispatched ?v"
    by blast
  then have rv: "dispatched (runFrame examplePopToTop (fold env [] (emit 0 ?v))) = []"
    using dv by (simp only:)
  from fu su eu ru fv sv mv lvd rv show ?thesis
    by (intro conjI)
qed

text \<open>
  Without \<open>navigation.addListener\<close> the effect registers nothing; and where no
  listener of this navigator is registered and no frame callback is pending, a tab press
  followed by a frame dispatches nothing.
\<close>

theorem no_listener_no_reset:
  "tabPressEffect False st = []
   \<and> (frames w = [] \<and> stackStates (listeners w) = []
      \<longrightarrow> dispatched (runFrame popToTopAction (fold env mid (emit e w))) = dispatched w)"
  by (simp add: tabPressEffect_def runFrame_dispatched fold_env_keeps emit_def
        fold_invoke_frames fold_invoke_keeps)

theorem no_listener_no_reset_witness:
  "frames (exampleWorld ([OtherListener False] @ tabPressEffect False exampleState)) = []
   \<and> stackStates (listeners (exampleWorld ([OtherListener False] @ tabPressEffect False exampleState))) = []
   \<and> dispatched (runFrame examplePopToTop (fold env []
         (emit 0 (exampleWorld ([OtherListener False] @ tabPressEffect False exampleState))))) = []"
proof -
  let ?w = "exampleWorld ([OtherListener False] @ tabPressEffect False exampleState)"
  have f: "frames ?w = []" and d: "dispatched ?w = []"
    by (simp_all add: exampleWorld_def)
  have l: "stackStates (listeners ?w) = []"
    by (simp add: exampleWorld_def tabPressEffect_def)
  from no_listener_no_reset [of exampleState ?w examplePopToTop "[]" 0]
  have "frames ?w = [] \<and> stackStates (listeners ?w) = []
      \<longrightarrow> dispatched (runFrame examplePopToTop (fold env [] (emit 0 ?w))) = dispatched ?w"
    by (rule conjunct2)
  with f l have "dispatched (runFrame examplePopToTop (fold env [] (emit 0 ?w))) = dispatched ?w"
    by blast
  with d have "dispatched (runFrame examplePopToTop (fold env [] (emit 0 ?w))) = []"
    by (simp only:)
  with f l show ?thesis
    by (intro conjI)
qed

subsection \<open>Keyboard handling\<close>

text \<open>
  C9. Keyboard handling is on unless the option is exactly \<open>false\<close>: the navigator
  returns the keyboard manager around the stack view, with \<open>enabled\<close> true for every
  value of \<open>keyboardHandlingEnabled\<close> other than the boolean \<open>false\<close> (so also for
  \<open>undefined\<close>, \<open>null\<close>, \<open>0\<close> and the empty string), and false for \<open>false\<close>.
\<close>

theorem keyboard_handling_enabled_unless_false:
  "StackNavigator keyboardHandlingEnabled s d n r =
     KeyboardManager (keyboardHandlingEnabled \<noteq> Bool False) (StackView s d n r)
   \<and> StackNavigator Undefined s d n r = KeyboardManager True (StackView s d n r)
   \<and> StackNavigator Null s d n r = KeyboardManager True (StackView s d n r)
   \<and> StackNavigator (Num 0) s d n r = KeyboardManager True (StackView s d n r)
   \<and> StackNavigator (Str []) s d n r = KeyboardManager True (StackView s d n r)
   \<and> StackNavigator (Bool True) s d n r = KeyboardManager True (StackView s d n r)
   \<and> StackNavigator (Bool False) s d n r = KeyboardManager False (StackView s d n r)"
  by (simp add: StackNavigator_def)

section \<open>Properties of the types\<close>

text \<open>
  C2. An event of the navigator's event map is \<open>transitionStart\<close> or
  \<open>transitionEnd\<close> (two different events, under these names), and its data is an
  object with the one boolean member \<open>closing\<close>.
\<close>

theorem event_map_has_two_transition_events:
  "((\<exists>c. ev = transitionStart \<lparr>transition_data.closing = c\<rparr>) \<and> eventName ev = ''transitionStart''
     \<or> (\<exists>c. ev = transitionEnd \<lparr>transition_data.closing = c\<rparr>) \<and> eventName ev = ''transitionEnd'')
   \<and> transitionStart d \<noteq> transitionEnd d'
   \<and> eventData ev = \<lparr>transition_data.closing = transition_data.closing (eventData ev)\<rparr>"
proof (cases ev)
  case (transitionStart x)
  then show ?thesis by (cases x) simp
next
  case (transitionEnd x)
  then show ?thesis by (cases x) simp
qed

text \<open>
  C3. A stack navigation prop is the base navigation prop extended by exactly the three
  members \<open>push\<close>, \<open>pop\<close> and \<open>popToTop\<close>. The arguments of \<open>push\<close> are a route
  name, or a route name and params; the argument of \<open>pop\<close> is an optional count;
  \<open>popToTop\<close> takes none; each returns the unit value.
\<close>

theorem navigation_prop_adds_push_pop_popToTop:
  fixes nav :: "('np, 'name, 'params, 'w) StackNavigationProp"
    and a :: "('name, 'params) push_args"
    and count :: "number option"
  shows "nav = NavigationProp.extend (NavigationProp.truncate nav)
                 (StackNavigationProp.fields (push nav) (pop nav) (popToTop nav))
   \<and> ((\<exists>name. a = RouteName name) \<or> (\<exists>name params. a = RouteNameParams name params))
   \<and> (count = None \<or> (\<exists>n. count = Some n))
   \<and> fst (push nav a w) = () \<and> fst (pop nav count w) = () \<and> fst (popToTop nav w) = ()"
proof -
  have "nav = NavigationProp.extend (NavigationProp.truncate nav)
                 (StackNavigationProp.fields (push nav) (pop nav) (popToTop nav))"
    by (simp add: NavigationProp.extend_def NavigationProp.truncate_def
          StackNavigationProp.fields_def)
  moreover have "(\<exists>name. a = RouteName name) \<or> (\<exists>name params. a = RouteNameParams name params)"
    by (cases a) simp_all
  moreover have "count = None \<or> (\<exists>n. count = Some n)"
    by (cases count) simp_all
  ultimately show ?thesis by simp
qed

text \<open>
  C4. The props a card style interpolator receives are exactly: the current screen's
  progress, the optional next screen's progress, the index, the closing node, the screen
  layout (width and height) and the insets (top, right, bottom, left); the closing node
  evaluates to 0 or 1; the result has exactly the members \<open>containerStyle\<close>,
  \<open>cardStyle\<close>, \<open>overlayStyle\<close> and \<open>shadowStyle\<close>, each of them optional (an
  interpolator may leave any of them out).
\<close>

theorem card_interpolator_inputs_and_outputs:
  fixes p :: StackCardInterpolationProps
    and f :: "'style StackCardStyleInterpolator"
  shows "p = \<lparr>StackCardInterpolationProps.current =
                \<lparr>screen_progress.progress =
                   screen_progress.progress (StackCardInterpolationProps.current p)\<rparr>,
              next' = StackCardInterpolationProps.next' p,
              index = StackCardInterpolationProps.index p,
              closing = StackCardInterpolationProps.closing p,
              layouts = \<lparr>screen = \<lparr>width = width (screen (layouts p)),
                                   height = height (screen (layouts p))\<rparr>\<rparr>,
              insets = \<lparr>top = top (insets p), right = right (insets p),
                        bottom = bottom (insets p), left = left (insets p)\<rparr>\<rparr>
   \<and> (Rep_zero_or_one (evaluate (StackCardInterpolationProps.closing p)) = 0
      \<or> Rep_zero_or_one (evaluate (StackCardInterpolationProps.closing p)) = 1)
   \<and> f p = \<lparr>containerStyle = containerStyle (f p), cardStyle = cardStyle (f p),
             overlayStyle = overlayStyle (f p), shadowStyle = shadowStyle (f p)\<rparr>
   \<and> (\<exists>g :: 'style StackCardStyleInterpolator.
        g p = \<lparr>containerStyle = None, cardStyle = None, overlayStyle = None,
               shadowStyle = None\<rparr>)"
proof -
  have "\<exists>g :: 'style StackCardStyleInterpolator.
        g p = \<lparr>containerStyle = None, cardStyle = None, overlayStyle = None,
               shadowStyle = None\<rparr>"
    by (rule exI [of _ "\<lambda>q. \<lparr>containerStyle = None, cardStyle = None,
                              overlayStyle = None, shadowStyle = None\<rparr>"]) simp
  then show ?thesis
    using Rep_zero_or_one [of "evaluate (StackCardInterpolationProps.closing p)"]
    by simp
qed

text \<open>
  C6. A transition spec is exactly one of: a timing animation with a duration and an
  easing, or a spring animation with damping, mass, stiffness, rest speed threshold, rest
  displacement threshold and the overshoot clamping flag. The \<open>transitionSpec\<close> of a
  preset is the pair of a spec for opening and a spec for closing.
\<close>

theorem transition_spec_is_timing_or_spring:
  fixes s :: "'easing TransitionSpec"
    and preset :: "('easing, 'style, 'header) TransitionPreset"
  shows "(((\<exists>d c. s = timing \<lparr>duration = d, easing = c\<rparr>) \<and> animation s = ''timing'')
          \<noteq> ((\<exists>da m st rs rd oc. s = spring \<lparr>damping = da, mass = m, stiffness = st,
                  restSpeedThreshold = rs, restDisplacementThreshold = rd,
                  overshootClamping = oc\<rparr>) \<and> animation s = ''spring''))
   \<and> transitionSpec preset =
        \<lparr>open' = open' (transitionSpec preset), close = close (transitionSpec preset)\<rparr>"
proof (cases s)
  case (spring x)
  then show ?thesis by (cases x) simp
next
  case (timing x)
  then show ?thesis by (cases x) simp
qed

section \<open>Properties of the parts modelled from the specification\<close>

text \<open>
  C7. The scene of the screen at position \<open>i\<close> of the stack has the three progress
  references \<open>current\<close>, \<open>next\<close> and \<open>previous\<close>: \<open>current\<close> is the screen's own
  progress; \<open>next\<close> is absent exactly when the screen is the last (topmost) one;
  \<open>previous\<close> is absent exactly when it is the first (bottommost) one.
\<close>

theorem scene_progress_references:
  assumes "i < length routes"
  shows "length (scenes routes descriptorOf progressOf) = length routes
   \<and> route (scenes routes descriptorOf progressOf ! i) = routes ! i
   \<and> Scene.progress (scenes routes descriptorOf progressOf ! i) =
       \<lparr>scene_progress.current = progressOf (routes ! i),
        next' = scene_progress.next' (Scene.progress (scenes routes descriptorOf progressOf ! i)),
        previous = previous (Scene.progress (scenes routes descriptorOf progressOf ! i))\<rparr>
   \<and> (scene_progress.next' (Scene.progress (scenes routes descriptorOf progressOf ! i)) = None)
       = (Suc i = length routes)
   \<and> (previous (Scene.progress (scenes routes descriptorOf progressOf ! i)) = None)
       = (i = 0)"
  using assms by (auto simp add: scenes_def)

theorem scene_progress_references_witness:
  "(0 :: nat) < length [''Home'', ''List'', ''Details'']
   \<and> previous (Scene.progress
        (scenes [''Home'', ''List'', ''Details''] (\<lambda>r. r) (\<lambda>r. Animated_Node 1) ! 0)) = None
   \<and> scene_progress.next' (Scene.progress
        (scenes [''Home'', ''List'', ''Details''] (\<lambda>r. r) (\<lambda>r. Animated_Node 1) ! 0)) \<noteq> None
   \<and> (2 :: nat) < length [''Home'', ''List'', ''Details'']
   \<and> scene_progress.next' (Scene.progress
        (scenes [''Home'', ''List'', ''Details''] (\<lambda>r. r) (\<lambda>r. Animated_Node 1) ! 2)) = None
   \<and> previous (Scene.progress
        (scenes [''Home'', ''List'', ''Details''] (\<lambda>r. r) (\<lambda>r. Animated_Node 1) ! 2)) \<noteq> None"
  using scene_progress_references
          [of 0 "[''Home'', ''List'', ''Details'']" "\<lambda>r. r" "\<lambda>r. Animated_Node 1"]
        scene_progress_references
          [of 2 "[''Home'', ''List'', ''Details'']" "\<lambda>r. r" "\<lambda>r. Animated_Node 1"]
  by simp

text \<open>
  C8. Without an override the edge-response distance is 25 for the horizontal gesture
  direction and 135 for the vertical one. The two overrides are independent: the
  \<open>vertical\<close> member plays no part in the horizontal distance, nor the \<open>horizontal\<close>
  member in the vertical distance, and each direction uses its own member when it is
  given.
\<close>

theorem edge_response_distance_defaults:
  "edgeResponseDistance Horizontal None = 25
   \<and> edgeResponseDistance Vertical None = 135
   \<and> edgeResponseDistance Horizontal (Some \<lparr>vertical = v, horizontal = None\<rparr>) = 25
   \<and> edgeResponseDistance Vertical (Some \<lparr>vertical = None, horizontal = h\<rparr>) = 135
   \<and> edgeResponseDistance Horizontal (Some \<lparr>vertical = v, horizontal = Some x\<rparr>) = x
   \<and> edgeResponseDistance Vertical (Some \<lparr>vertical = Some y, horizontal = h\<rparr>) = y"
  by (simp add: edgeResponseDistance_def GESTURE_RESPONSE_DISTANCE_HORIZONTAL_def
        GESTURE_RESPONSE_DISTANCE_VERTICAL_def)

end
